theory Spec2Isabelle
  imports Complex_Main
begin

section \<open>Python values used by telegram\_agent.py\<close>

text \<open>
  Python strings are modelled as HOL strings: a character is a code point below 256, and
  the operations below are Python's \<^verbatim>\<open>str\<close> methods on such code points.
\<close>

datatype exn =
    Exception string
  | UnboundLocalError string
  | ValueError
  | IndexError

text \<open>The result of calling an external collaborator: it raises an exception whose
  \<^verbatim>\<open>str()\<close> is the given text, or it returns a value.\<close>

datatype 'a result = Raised string | Ok 'a

text \<open>\<^verbatim>\<open>str.isspace\<close>, which decides what \<^verbatim>\<open>str.strip\<close> removes: TAB, LF, VT, FF, CR,
  FS, GS, RS, US, space, NEL (U+0085) and the no-break space (U+00A0).\<close>

definition is_space :: "char \<Rightarrow> bool" where
  "is_space c = (c \<in> set [CHR 0x09, CHR 0x0A, CHR 0x0B, CHR 0x0C, CHR 0x0D,
                          CHR 0x1C, CHR 0x1D, CHR 0x1E, CHR 0x1F, CHR 0x20,
                          CHR 0x85, CHR 0xA0])"

text \<open>\<^verbatim>\<open>s.strip()\<close>\<close>

definition strip :: "string \<Rightarrow> string" where
  "strip s = rev (dropWhile is_space (rev (dropWhile is_space s)))"

text \<open>\<^verbatim>\<open>s.lower()\<close>: the letters A to Z, and the capital letters U+00C0 to U+00DE
  (the multiplication sign U+00D7 is not a letter), go to the code point 32 above.\<close>

definition upper_letters :: string where
  "upper_letters = ''ABCDEFGHIJKLMNOPQRSTUVWXYZ'' @
     [CHR 0xC0, CHR 0xC1, CHR 0xC2, CHR 0xC3, CHR 0xC4, CHR 0xC5, CHR 0xC6, CHR 0xC7,
      CHR 0xC8, CHR 0xC9, CHR 0xCA, CHR 0xCB, CHR 0xCC, CHR 0xCD, CHR 0xCE, CHR 0xCF,
      CHR 0xD0, CHR 0xD1, CHR 0xD2, CHR 0xD3, CHR 0xD4, CHR 0xD5, CHR 0xD6, CHR 0xD8,
      CHR 0xD9, CHR 0xDA, CHR 0xDB, CHR 0xDC, CHR 0xDD, CHR 0xDE]"

definition lower_letters :: string where
  "lower_letters = ''abcdefghijklmnopqrstuvwxyz'' @
     [CHR 0xE0, CHR 0xE1, CHR 0xE2, CHR 0xE3, CHR 0xE4, CHR 0xE5, CHR 0xE6, CHR 0xE7,
      CHR 0xE8, CHR 0xE9, CHR 0xEA, CHR 0xEB, CHR 0xEC, CHR 0xED, CHR 0xEE, CHR 0xEF,
      CHR 0xF0, CHR 0xF1, CHR 0xF2, CHR 0xF3, CHR 0xF4, CHR 0xF5, CHR 0xF6, CHR 0xF8,
      CHR 0xF9, CHR 0xFA, CHR 0xFB, CHR 0xFC, CHR 0xFD, CHR 0xFE]"

definition lower_chr :: "char \<Rightarrow> char" where
  "lower_chr c =
     (case map_of (zip upper_letters lower_letters) c of
        Some d \<Rightarrow> d
      | None \<Rightarrow> c)"

definition lower :: "string \<Rightarrow> string" where
  "lower s = map lower_chr s"

text \<open>\<^verbatim>\<open>s.startswith(p)\<close>\<close>

definition startswith :: "string \<Rightarrow> string \<Rightarrow> bool" where
  "startswith p s = (take (length p) s = p)"

text \<open>\<^verbatim>\<open>needle in hay\<close>\<close>

fun contains :: "string \<Rightarrow> string \<Rightarrow> bool" where
  "contains needle [] = (needle = [])"
| "contains needle (c # cs) = (if startswith needle (c # cs) then True else contains needle cs)"

text \<open>\<^verbatim>\<open>s.split(sep)\<close> for a one-character separator: always at least one piece.\<close>

fun split_chr :: "char \<Rightarrow> string \<Rightarrow> string list" where
  "split_chr sep [] = [[]]"
| "split_chr sep (c # cs) =
     (if c = sep then [] # split_chr sep cs
      else (case split_chr sep cs of
              p # ps \<Rightarrow> (c # p) # ps
            | [] \<Rightarrow> [[c]]))"

text \<open>\<^verbatim>\<open>s.split(sep, 1)\<close>: one piece when the separator does not occur, otherwise the
  text before the first separator and the text after it.\<close>

definition split1 :: "char \<Rightarrow> string \<Rightarrow> string list" where
  "split1 sep s =
     (if sep \<in> set s
      then [takeWhile (\<lambda>c. c \<noteq> sep) s, drop 1 (dropWhile (\<lambda>c. c \<noteq> sep) s)]
      else [s])"

text \<open>Truthiness of an optional string: \<^verbatim>\<open>None\<close> and \<^verbatim>\<open>""\<close> are false.\<close>

fun truthy :: "string option \<Rightarrow> bool" where
  "truthy None = False"
| "truthy (Some s) = (s \<noteq> [])"

text \<open>\<^verbatim>\<open>x or ''\<close>\<close>

fun or_empty :: "string option \<Rightarrow> string" where
  "or_empty None = []"
| "or_empty (Some s) = s"

text \<open>An optional string inside an f-string: \<^verbatim>\<open>None\<close> is rendered as the text None.\<close>

fun format_opt :: "string option \<Rightarrow> string" where
  "format_opt None = ''None''"
| "format_opt (Some s) = s"

text \<open>\<^verbatim>\<open>os.path.join(a, b)\<close> on a POSIX system.\<close>

definition path_join :: "string \<Rightarrow> string \<Rightarrow> string" where
  "path_join a b =
     (if startswith ''/'' b then b
      else if a = [] then b
      else if last a = CHR ''/'' then a @ b
      else a @ ''/'' @ b)"

text \<open>\<^verbatim>\<open>s.replace('\\', '/')\<close>\<close>

definition replace_backslash :: "string \<Rightarrow> string" where
  "replace_backslash s = map (\<lambda>c. if c = CHR 0x5C then CHR ''/'' else c) s"


section \<open>The sectioned prompt configuration (load\_prompt\_config\_from\_txt)\<close>

type_synonym prompt_config = "string \<times> (string \<rightharpoonup> string) \<times> string"

text \<open>One iteration of the loop over the sections: the header and body are unpacked from
  \<^verbatim>\<open>section.split(']', 1)\<close>, which raises ValueError when there is only one piece.\<close>

fun parse_section :: "string \<Rightarrow> prompt_config \<Rightarrow> exn + prompt_config" where
  "parse_section section (system_prompt, personas, default_persona) =
     (case split1 CHR '']'' section of
        [header, body0] \<Rightarrow>
          (let body = strip body0 in
           if header = ''system_prompt'' then Inr (body, personas, default_persona)
           else if startswith ''persona:'' header then
             (case split1 CHR '':'' header of
                _ # user # _ \<Rightarrow> Inr (system_prompt, personas(user \<mapsto> body), default_persona)
              | _ \<Rightarrow> Inl IndexError)
           else if header = ''default_persona'' then Inr (system_prompt, personas, body)
           else Inr (system_prompt, personas, default_persona))
      | _ \<Rightarrow> Inl ValueError)"

fun parse_sections :: "string list \<Rightarrow> prompt_config \<Rightarrow> exn + prompt_config" where
  "parse_sections [] acc = Inr acc"
| "parse_sections (section # rest) acc =
     (case parse_section section acc of
        Inl e \<Rightarrow> Inl e
      | Inr acc' \<Rightarrow> parse_sections rest acc')"

text \<open>\<^verbatim>\<open>content.split('[')[1:]\<close>\<close>

definition sections :: "string \<Rightarrow> string list" where
  "sections content = drop 1 (split_chr CHR ''['' content)"

text \<open>The argument is the content of prompt\_config.txt, or None when the file does not
  exist.\<close>

definition load_prompt_config_from_txt :: "string option \<Rightarrow> exn + prompt_config" where
  "load_prompt_config_from_txt file =
     (case file of
        None \<Rightarrow> Inr ([], Map.empty, [])
      | Some content \<Rightarrow> parse_sections (sections content) ([], Map.empty, []))"


section \<open>Module-level state\<close>

text \<open>The model handle created by \<^verbatim>\<open>genai.GenerativeModel(GEMINI_MODEL,
  system_instruction=system_prompt)\<close>.\<close>

record generative_model =
  model_name :: string
  system_instruction :: string

record globals =
  system_prompt :: string
  personas :: "string \<rightharpoonup> string"
  default_persona :: string
  PROFILE_PICS_PATH :: string
  model :: generative_model



section \<open>The store, the transport and the trace of effects\<close>

text \<open>A row of the messages table, without the serial id the store assigns.\<close>

record message =
  direction :: string
  user_id :: string
  msg_text :: string
  timestamp :: real
  profile_pic_path :: "string option"

text \<open>Every call the handler makes to a collaborator, in the order it is made.\<close>

datatype effect =
    Print string
  | Select_blocked string
  | Insert_user string
  | Download_profile_photo string
  | Log_to_db string string string "string option"
  | Typing
  | Generate_content string
  | Respond string

text \<open>The users table is keyed by user\_id; \<open>outbox\<close> holds the texts the transport has
  delivered to the sender.\<close>

record world =
  users :: "string \<rightharpoonup> bool"
  messages :: "message list"
  outbox :: "string list"
  trace :: "effect list"

record sender =
  username :: "string option"
  first_name :: "string option"
  last_name :: "string option"

record event =
  is_private :: bool
  message_out :: bool
  event_text :: string

text \<open>What each collaborator does during the handling of one event, in source order:
  \<^verbatim>\<open>event.get_sender()\<close>, \<^verbatim>\<open>get_db_connection()\<close> with the cursor, the SELECT, the
  INSERT with its commit, \<^verbatim>\<open>client.download_profile_photo\<close>, the INSERT inside
  \<^verbatim>\<open>log_to_db('in', ...)\<close> and the clock it reads, entering \<^verbatim>\<open>client.action\<close>,
  \<^verbatim>\<open>model.generate_content\<close> with \<^verbatim>\<open>response.text\<close>, \<^verbatim>\<open>event.respond\<close> with the
  reply, the INSERT inside \<^verbatim>\<open>log_to_db('out', ...)\<close> and its clock, and
  \<^verbatim>\<open>event.respond\<close> with the apology.\<close>

record env =
  get_sender_r :: "sender result"
  connect_r :: "unit result"
  select_r :: "unit result"
  insert_r :: "unit result"
  download_r :: "string option result"
  log_in_r :: "unit result"
  time_in :: real
  typing_r :: "unit result"
  generate_r :: "string result"
  respond_r :: "unit result"
  log_out_r :: "unit result"
  time_out :: real
  apology_r :: "unit result"

definition emit :: "effect \<Rightarrow> world \<Rightarrow> world" where
  "emit e w = w\<lparr>trace := trace w @ [e]\<rparr>"

text \<open>\<^verbatim>\<open>INSERT INTO users (user_id, blocked) VALUES (%s, false) ON CONFLICT (user_id) DO
  NOTHING\<close>\<close>

definition upsert_user :: "string \<Rightarrow> (string \<rightharpoonup> bool) \<Rightarrow> (string \<rightharpoonup> bool)" where
  "upsert_user uid us = (case us uid of None \<Rightarrow> us(uid \<mapsto> False) | Some b \<Rightarrow> us)"

text \<open>\<^verbatim>\<open>log_to_db\<close> never raises: a store failure is printed and the row is lost.\<close>

definition log_to_db ::
  "unit result \<Rightarrow> real \<Rightarrow> string \<Rightarrow> string \<Rightarrow> string \<Rightarrow> string option \<Rightarrow> world \<Rightarrow> world" where
  "log_to_db store now dir uid txt pic w =
     (case store of
        Ok _ \<Rightarrow>
          (emit (Log_to_db dir uid txt pic) w)
            \<lparr>messages := messages w @
               [\<lparr>direction = dir, user_id = uid, msg_text = txt, timestamp = now,
                 profile_pic_path = pic\<rparr>]\<rparr>
      | Raised e \<Rightarrow>
          emit (Print (''Database error in log_to_db: '' @ e))
            (emit (Log_to_db dir uid txt pic) w))"

text \<open>\<^verbatim>\<open>await event.respond(txt)\<close>\<close>

definition respond :: "unit result \<Rightarrow> string \<Rightarrow> world \<Rightarrow> string option \<times> world" where
  "respond transport txt w =
     (case transport of
        Ok _ \<Rightarrow> (None, (emit (Respond txt) w)\<lparr>outbox := outbox w @ [txt]\<rparr>)
      | Raised e \<Rightarrow> (Some e, emit (Respond txt) w))"


section \<open>handle\_new\_message\<close>

text \<open>Lines 147-150.\<close>

definition user_identifier :: "sender \<Rightarrow> string" where
  "user_identifier s =
     (if truthy (username s) then or_empty (username s)
      else strip (format_opt (first_name s) @ '' '' @ or_empty (last_name s)))"

definition apology :: string where
  "apology = ''Sorry, something went wrong while processing your request.''"

text \<open>Lines 186-194, the body of \<^verbatim>\<open>async with client.action(...)\<close>. The first component
  of the result is the text of the exception that left the block, if any.\<close>

definition typing_block ::
  "globals \<Rightarrow> env \<Rightarrow> string \<Rightarrow> string \<Rightarrow> string option \<Rightarrow> world \<Rightarrow> string option \<times> world" where
  "typing_block g en uid message_text pic w =
     (case typing_r en of
        Raised e \<Rightarrow> (Some e, emit Typing w)
      | Ok _ \<Rightarrow>
          (let persona = (case personas g uid of Some p \<Rightarrow> p | None \<Rightarrow> default_persona g);
               prompt = persona @ [CHR 0x0A, CHR 0x0A] @ message_text;
               w1 = emit (Generate_content prompt) (emit Typing w)
           in case generate_r en of
                Raised e \<Rightarrow> (Some e, w1)
              | Ok gemini_response \<Rightarrow>
                  (case respond (respond_r en) gemini_response w1 of
                     (Some e, w2) \<Rightarrow> (Some e, w2)
                   | (None, w2) \<Rightarrow>
                       (None,
                        log_to_db (log_out_r en) (time_out en) ''out'' uid gemini_response pic
                          (emit (Print (''Sent response to '' @ uid @ '': '' @ gemini_response))
                             w2)))))"

text \<open>Lines 153-194, the body of the \<^verbatim>\<open>try\<close>. The result is the text of the exception
  raised (if any), the binding of the local \<^verbatim>\<open>profile_pic_rel_path\<close> (None while the
  name is unbound) and the world. The \<^verbatim>\<open>return\<close> for a blocked user and the normal end
  of the body both give no exception.\<close>

definition try_body ::
  "globals \<Rightarrow> env \<Rightarrow> event \<Rightarrow> string \<Rightarrow> world
     \<Rightarrow> string option \<times> string option option \<times> world" where
  "try_body g en ev uid w =
     (case connect_r en of
        Raised e \<Rightarrow> (Some e, None, w)
      | Ok _ \<Rightarrow>
     (let w1 = emit (Select_blocked uid) w in
      case select_r en of
        Raised e \<Rightarrow> (Some e, None, w1)
      | Ok _ \<Rightarrow>
     if users w uid = Some True
     then (None, None, emit (Print (''Ignoring message from blocked user: '' @ uid)) w1)
     else
     (let w2 = emit (Insert_user uid) w1 in
      case insert_r en of
        Raised e \<Rightarrow> (Some e, None, w2)
      | Ok _ \<Rightarrow>
     (let w3 = w2\<lparr>users := upsert_user uid (users w2)\<rparr>;
          profile_pic_filename = uid @ ''.jpg'';
          profile_pic_abs_path = path_join (PROFILE_PICS_PATH g) profile_pic_filename;
          w4 = emit (Download_profile_photo profile_pic_abs_path) w3
      in case download_r en of
        Raised e \<Rightarrow> (Some e, None, w4)
      | Ok downloaded_path \<Rightarrow>
     (let profile_pic_rel_path =
            (if truthy downloaded_path
             then Some (replace_backslash (path_join ''profile_pics'' profile_pic_filename))
             else None);
          message_text = event_text ev;
          w5 = emit (Print (''Received message from '' @ uid @ '': '' @ message_text)) w4;
          w6 = log_to_db (log_in_r en) (time_in en) ''in'' uid message_text
                 profile_pic_rel_path w5
      in case typing_block g en uid message_text profile_pic_rel_path w6 of
           (r, w7) \<Rightarrow> (r, Some profile_pic_rel_path, w7))))))"

text \<open>Lines 196-202, the \<^verbatim>\<open>except Exception as e\<close> block. Reading
  \<^verbatim>\<open>profile_pic_rel_path\<close> while it is unbound raises UnboundLocalError, which leaves
  the handler, as does an exception of the final \<^verbatim>\<open>event.respond\<close>.\<close>

definition except_block ::
  "env \<Rightarrow> string \<Rightarrow> string \<Rightarrow> string option option \<Rightarrow> world \<Rightarrow> exn option \<times> world" where
  "except_block en uid e pic w =
     (let error_message = ''An error occurred in handle_new_message: '' @ e;
          w1 = emit (Print error_message) w
      in if contains ''database'' (lower e)
         then (case respond (apology_r en) apology w1 of
                 (Some e', w2) \<Rightarrow> (Some (Exception e'), w2)
               | (None, w2) \<Rightarrow> (None, w2))
         else (case pic of
                 None \<Rightarrow> (Some (UnboundLocalError ''profile_pic_rel_path''), w1)
               | Some p \<Rightarrow>
                   (case respond (apology_r en) apology
                           (log_to_db (log_out_r en) (time_out en) ''out'' uid error_message p w1) of
                      (Some e', w2) \<Rightarrow> (Some (Exception e'), w2)
                    | (None, w2) \<Rightarrow> (None, w2))))"

text \<open>The handler: the exception that escapes it (None when it returns) and the world
  it leaves.\<close>

definition handle_new_message ::
  "globals \<Rightarrow> env \<Rightarrow> event \<Rightarrow> world \<Rightarrow> exn option \<times> world" where
  "handle_new_message g en ev w =
     (if is_private ev \<and> \<not> message_out ev
      then (case get_sender_r en of
              Raised e \<Rightarrow> (Some (Exception e), w)
            | Ok sender \<Rightarrow>
                (let uid = user_identifier sender
                 in case try_body g en ev uid w of
                      (None, pic, w1) \<Rightarrow> (None, w1)
                    | (Some e, pic, w1) \<Rightarrow> except_block en uid e pic w1))
      else (None, w))"

text \<open>The handler run on a sequence of events, each with its own collaborator behaviour.
  An exception that escapes one run is reported by the dispatcher and the next event is
  handled.\<close>

fun handle_all :: "globals \<Rightarrow> (env \<times> event) list \<Rightarrow> world \<Rightarrow> world" where
  "handle_all g [] w = w"
| "handle_all g ((en, ev) # rest) w = handle_all g rest (snd (handle_new_message g en ev w))"


section \<open>Notions used to state the properties\<close>

text \<open>The rows of one direction.\<close>

definition rows_with :: "string \<Rightarrow> message list \<Rightarrow> message list" where
  "rows_with dir ms = filter (\<lambda>m. direction m = dir) ms"



text \<open>The world in which the \<^verbatim>\<open>async with\<close> block of line 186 is entered: the block
  check, the upsert, the download and the inbound log have been done.\<close>

definition inbound_logged ::
  "globals \<Rightarrow> env \<Rightarrow> event \<Rightarrow> string \<Rightarrow> string option \<Rightarrow> world \<Rightarrow> world" where
  "inbound_logged g en ev uid pic w =
     log_to_db (log_in_r en) (time_in en) ''in'' uid (event_text ev) pic
       (emit (Print (''Received message from '' @ uid @ '': '' @ event_text ev))
          (emit (Download_profile_photo (path_join (PROFILE_PICS_PATH g) (uid @ ''.jpg'')))
             ((emit (Insert_user uid) (emit (Select_blocked uid) w))
                \<lparr>users := upsert_user uid (users w)\<rparr>)))"





fun is_inbound_log :: "effect \<Rightarrow> bool" where
  "is_inbound_log (Log_to_db d _ _ _) = (d = ''in'')"
| "is_inbound_log _ = False"

fun is_outbound_log :: "effect \<Rightarrow> bool" where
  "is_outbound_log (Log_to_db d _ _ _) = (d = ''out'')"
| "is_outbound_log _ = False"

fun is_model_call :: "effect \<Rightarrow> bool" where
  "is_model_call (Generate_content _) = True"
| "is_model_call _ = False"

fun is_reply_send :: "effect \<Rightarrow> bool" where
  "is_reply_send (Respond _) = True"
| "is_reply_send _ = False"

text \<open>Some effect satisfying \<open>Q\<close> comes after the first effect satisfying \<open>P\<close>.\<close>

definition occurs_before :: "(effect \<Rightarrow> bool) \<Rightarrow> (effect \<Rightarrow> bool) \<Rightarrow> effect list \<Rightarrow> bool" where
  "occurs_before P Q tr =
     (case dropWhile (\<lambda>x. \<not> P x) tr of
        [] \<Rightarrow> False
      | _ # rest \<Rightarrow> filter Q rest \<noteq> [])"

text \<open>The order of section 5 of the specification: inbound log, model call, outbound log,
  reply send.\<close>

definition log_call_log_send :: "effect list \<Rightarrow> bool" where
  "log_call_log_send tr =
     (occurs_before is_inbound_log is_model_call tr \<and>
      occurs_before is_model_call is_outbound_log tr \<and>
      occurs_before is_outbound_log is_reply_send tr)"

text \<open>A string with no whitespace at either end.\<close>

definition trimmed :: "string \<Rightarrow> bool" where
  "trimmed s = (if s = [] then True else \<not> is_space (hd s) \<and> \<not> is_space (last s))"

text \<open>The header and the body of a section that has a closing bracket, and the trimmed
  body of the last section with a given header.\<close>

definition header_of :: "string \<Rightarrow> string" where
  "header_of section = takeWhile (\<lambda>c. c \<noteq> CHR '']'') section"

definition body_of :: "string \<Rightarrow> string" where
  "body_of section = drop 1 (dropWhile (\<lambda>c. c \<noteq> CHR '']'') section)"

definition last_body :: "string \<Rightarrow> string list \<Rightarrow> string option" where
  "last_body h secs =
     (case filter (\<lambda>s. header_of s = h) secs of
        [] \<Rightarrow> None
      | x # xs \<Rightarrow> Some (strip (body_of (last (x # xs)))))"

text \<open>The diagnostic of the \<^verbatim>\<open>except\<close> block and the profile picture path of line 178.\<close>

definition diagnostic :: "string \<Rightarrow> string" where
  "diagnostic e = ''An error occurred in handle_new_message: '' @ e"

definition rel_path :: "string \<Rightarrow> string option \<Rightarrow> string option" where
  "rel_path uid downloaded_path =
     (if truthy downloaded_path
      then Some (replace_backslash (path_join ''profile_pics'' (uid @ ''.jpg'')))
      else None)"

definition persona_for :: "globals \<Rightarrow> string \<Rightarrow> string" where
  "persona_for g uid = (case personas g uid of Some p \<Rightarrow> p | None \<Rightarrow> default_persona g)"


section \<open>Concrete runs\<close>

definition g0 :: globals where
  "g0 = \<lparr>system_prompt = ''SYS'', personas = [''bob'' \<mapsto> ''Be brief.''],
          default_persona = ''Be kind.'',
          PROFILE_PICS_PATH = ''/app/web_panel/static/profile_pics'',
          model = \<lparr>model_name = ''gemini-1.5-flash'', system_instruction = ''SYS''\<rparr>\<rparr>"

definition bob :: sender where
  "bob = \<lparr>username = Some ''bob'', first_name = Some ''Bob'', last_name = None\<rparr>"

definition ada :: sender where
  "ada = \<lparr>username = Some [], first_name = Some ''Ada'', last_name = Some ''Lovelace''\<rparr>"

text \<open>Every collaborator succeeds.\<close>

definition en_ok :: env where
  "en_ok = \<lparr>get_sender_r = Ok bob, connect_r = Ok (), select_r = Ok (), insert_r = Ok (),
             download_r = Ok (Some ''/app/web_panel/static/profile_pics/bob.jpg''),
             log_in_r = Ok (), time_in = 1, typing_r = Ok (), generate_r = Ok ''hello'',
             respond_r = Ok (), log_out_r = Ok (), time_out = 2, apology_r = Ok ()\<rparr>"

text \<open>The model call fails with a text that mentions a database.\<close>

definition en_model_database :: env where
  "en_model_database = en_ok\<lparr>generate_r := Raised ''DATABASE quota exceeded''\<rparr>"

text \<open>The model call fails with another text.\<close>

definition en_model_overloaded :: env where
  "en_model_overloaded = en_ok\<lparr>generate_r := Raised ''model overloaded''\<rparr>"

text \<open>The download of the profile photo fails.\<close>

definition en_download_timeout :: env where
  "en_download_timeout = en_ok\<lparr>download_r := Raised ''timeout''\<rparr>"

text \<open>The store cannot be reached.\<close>

definition en_connect_database :: env where
  "en_connect_database = en_ok\<lparr>connect_r := Raised ''database is starting up''\<rparr>"


text \<open>A prompt configuration in which every header occurs twice.\<close>

definition duplicated_sections :: string where
  "duplicated_sections =
     ''[system_prompt] A [persona:bob]B [system_prompt]Z [persona:bob] C [default_persona]D[default_persona] E''"

definition ev0 :: event where
  "ev0 = \<lparr>is_private = True, message_out = False, event_text = ''hi''\<rparr>"

definition w0 :: world where
  "w0 = \<lparr>users = Map.empty, messages = [], outbox = [], trace = []\<rparr>"

definition w_blocked :: world where
  "w_blocked = \<lparr>users = [''bob'' \<mapsto> True], messages = [], outbox = [], trace = []\<rparr>"

section \<open>Basic facts about the effects\<close>

lemma emit_sel [simp]:
  "users (emit e w) = users w" "messages (emit e w) = messages w"
  "outbox (emit e w) = outbox w" "trace (emit e w) = trace w @ [e]"
  by (simp_all add: emit_def)

lemma log_to_db_sel [simp]:
  "users (log_to_db r t d u x p w) = users w"
  "outbox (log_to_db r t d u x p w) = outbox w"
  by (simp_all add: log_to_db_def split: result.splits)

lemma respond_users [simp]: "users (snd (respond r x w)) = users w"
  by (simp add: respond_def split: result.splits)

lemma respond_users_eq: "respond r x w = (a, w') \<Longrightarrow> users w' = users w"
  using respond_users[of r x w] by simp


section \<open>The users table\<close>

lemma typing_block_users [simp]: "users (snd (typing_block g en uid t p w)) = users w"
  by (auto simp add: typing_block_def Let_def
      split: result.splits prod.splits option.splits dest: respond_users_eq)

lemma typing_block_users_eq: "typing_block g en uid t p w = (a, w') \<Longrightarrow> users w' = users w"
  using typing_block_users[of g en uid t p w] by simp

lemma users_try_body:
  "users (snd (snd (try_body g en ev uid w))) = users w \<or>
   users (snd (snd (try_body g en ev uid w))) = upsert_user uid (users w)"
  by (auto simp add: try_body_def Let_def
      split: result.splits prod.splits option.splits dest: typing_block_users_eq)

lemma users_except_block [simp]: "users (snd (except_block en uid e pic w)) = users w"
  by (auto simp add: except_block_def Let_def
      split: result.splits prod.splits option.splits dest: respond_users_eq)

lemma upsert_user_keeps: "us u = Some b \<Longrightarrow> upsert_user uid us u = Some b"
  by (auto simp: upsert_user_def split: option.splits)

text \<open>One run of the handler leaves every existing row of the users table as it is.\<close>

lemma users_handle_new_message:
  assumes "users w u = Some b"
  shows "users (snd (handle_new_message g en ev w)) u = Some b"
proof (cases "is_private ev \<and> \<not> message_out ev")
  case False
  then show ?thesis using assms by (auto simp add: handle_new_message_def)
next
  case True
  show ?thesis
  proof (cases "get_sender_r en")
    case (Raised e)
    then show ?thesis using True assms by (simp add: handle_new_message_def)
  next
    case (Ok s)
    obtain r pic w1 where tb: "try_body g en ev (user_identifier s) w = (r, pic, w1)"
      by (cases "try_body g en ev (user_identifier s) w") auto
    from users_try_body[of g en ev "user_identifier s" w] tb
    have "users w1 = users w \<or> users w1 = upsert_user (user_identifier s) (users w)"
      by simp
    with assms have w1: "users w1 u = Some b"
      by (auto simp: upsert_user_keeps)
    show ?thesis
    proof (cases r)
      case None
      then show ?thesis using True Ok tb w1 by (simp add: handle_new_message_def)
    next
      case (Some e)
      have "users (snd (except_block en (user_identifier s) e pic w1)) = users w1"
        by simp
      then show ?thesis using True Ok tb w1 Some by (simp add: handle_new_message_def)
    qed
  qed
qed

lemma users_handle_all:
  "users w u = Some b \<Longrightarrow> users (handle_all g evs w) u = Some b"
  by (induction evs arbitrary: w) (auto simp: users_handle_new_message)

text \<open>
  C8. Upserting a user inserts the row with \<open>blocked = false\<close> when the user is absent and
  changes nothing when the user is present; no run of the handler changes the flag of an
  existing user, so a blocked user is still blocked after any sequence of inbound
  messages.
\<close>

theorem upsert_user_never_clears_block:
  "(us uid = None \<longrightarrow> upsert_user uid us = us(uid \<mapsto> False)) \<and>
   (us uid = Some b \<longrightarrow> upsert_user uid us = us) \<and>
   (users w u = Some True \<longrightarrow> users (handle_all g evs w) u = Some True)"
  by (simp add: upsert_user_def users_handle_all)

theorem upsert_user_never_clears_block_witness:
  "users w0 ''bob'' = None \<and>
   upsert_user ''bob'' (users w0) = (users w0)(''bob'' \<mapsto> False) \<and>
   users w_blocked ''bob'' = Some True \<and>
   upsert_user ''bob'' (users w_blocked) = users w_blocked \<and>
   users (handle_all g0 [(en_ok, ev0), (en_model_overloaded, ev0)] w_blocked) ''bob'' = Some True"
  using upsert_user_never_clears_block [where us = "users w0" and uid = "''bob''"]
    upsert_user_never_clears_block [where us = "users w_blocked" and uid = "''bob''"
      and b = True and w = w_blocked and u = "''bob''" and g = g0
      and evs = "[(en_ok, ev0), (en_model_overloaded, ev0)]"]
  by (simp add: w0_def w_blocked_def)

section \<open>Identifier derivation\<close>

lemma rev_dropWhile_takeWhile:
  "xs = rev (dropWhile P (rev xs)) @ rev (takeWhile P (rev xs))"
proof -
  have "rev (takeWhile P (rev xs) @ dropWhile P (rev xs)) = xs"
    by (simp only: takeWhile_dropWhile_id rev_rev_ident)
  then show ?thesis by (simp only: rev_append)
qed

lemma dropWhile_strip:
  "dropWhile is_space s = strip s @ rev (takeWhile is_space (rev (dropWhile is_space s)))"
  unfolding strip_def by (rule rev_dropWhile_takeWhile)

lemma strip_decomp:
  "\<exists>a b. list_all is_space a \<and> list_all is_space b \<and> s = a @ strip s @ b"
proof -
  let ?t = "dropWhile is_space s"
  let ?a = "takeWhile is_space s"
  let ?b = "rev (takeWhile is_space (rev ?t))"
  have "s = ?a @ ?t" by simp
  with dropWhile_strip [of s] have s: "s = ?a @ strip s @ ?b" by simp
  have a: "list_all is_space ?a"
    by (simp add: list_all_iff) (meson set_takeWhileD)
  have b: "list_all is_space ?b"
    by (simp add: list_all_iff) (meson set_takeWhileD)
  from a b s show ?thesis by blast
qed

lemma trimmed_strip: "trimmed (strip s)"
proof (cases "strip s = []")
  case True
  then show ?thesis by (simp add: trimmed_def)
next
  case False
  let ?t = "dropWhile is_space s"
  let ?u = "dropWhile is_space (rev ?t)"
  from False have u: "?u \<noteq> []" by (simp add: strip_def)
  then have hu: "\<not> is_space (hd ?u)" by (rule hd_dropWhile)
  have "last (strip s) = hd ?u" using u by (simp add: strip_def last_rev)
  with hu have l: "\<not> is_space (last (strip s))" by simp
  have t: "?t \<noteq> []"
  proof
    assume "?t = []"
    then have "?u = []" by (simp only: rev.simps dropWhile.simps)
    with u show False by blast
  qed
  then have ht: "\<not> is_space (hd ?t)" by (rule hd_dropWhile)
  from dropWhile_strip [of s] have "hd ?t = hd (strip s @ rev (takeWhile is_space (rev ?t)))"
    by simp
  with False have "hd ?t = hd (strip s)" by simp
  with ht have "\<not> is_space (hd (strip s))" by simp
  with l False show ?thesis by (simp add: trimmed_def)
qed

text \<open>
  C6. For every sender profile the derived identifier is the username when that is
  non-empty; otherwise it is the first name, a space and the last name (nothing for a
  missing last name) with the whitespace at both ends removed. A first name that is
  missing is rendered by the f-string as the text None. The derivation is a function of
  the profile alone.
\<close>

theorem user_identifier_derivation:
  "(truthy (username s) \<longrightarrow> username s = Some (user_identifier s)) \<and>
   (\<not> truthy (username s) \<longrightarrow>
      user_identifier s =
        strip ((case first_name s of None \<Rightarrow> ''None'' | Some f \<Rightarrow> f) @ '' '' @
               (case last_name s of None \<Rightarrow> [] | Some l \<Rightarrow> l)) \<and>
      trimmed (user_identifier s) \<and>
      (\<exists>a b. list_all is_space a \<and> list_all is_space b \<and>
         (case first_name s of None \<Rightarrow> ''None'' | Some f \<Rightarrow> f) @ '' '' @
         (case last_name s of None \<Rightarrow> [] | Some l \<Rightarrow> l)
           = a @ user_identifier s @ b))"
proof (cases "truthy (username s)")
  case True
  then show ?thesis by (cases "username s") (simp_all add: user_identifier_def)
next
  case False
  let ?raw = "(case first_name s of None \<Rightarrow> ''None'' | Some f \<Rightarrow> f) @ '' '' @
              (case last_name s of None \<Rightarrow> [] | Some l \<Rightarrow> l)"
  have f: "format_opt (first_name s) = (case first_name s of None \<Rightarrow> ''None'' | Some f \<Rightarrow> f)"
    by (cases "first_name s") simp_all
  have l: "or_empty (last_name s) = (case last_name s of None \<Rightarrow> [] | Some l \<Rightarrow> l)"
    by (cases "last_name s") simp_all
  from False have u: "user_identifier s = strip ?raw"
    by (simp only: user_identifier_def f l if_False)
  from u trimmed_strip [of ?raw] have t: "trimmed (user_identifier s)"
    by (simp only:)
  from strip_decomp [of ?raw] u
  have d: "\<exists>a b. list_all is_space a \<and> list_all is_space b \<and> ?raw = a @ user_identifier s @ b"
    by (simp only:)
  from False u t d show ?thesis by blast
qed

theorem user_identifier_derivation_witness:
  "\<not> truthy (username ada) \<and>
   user_identifier ada = ''Ada Lovelace'' \<and> trimmed (user_identifier ada) \<and>
   user_identifier \<lparr>username = Some ''ada99'', first_name = Some ''Ada'',
                    last_name = Some ''Lovelace''\<rparr> = ''ada99'' \<and>
   user_identifier \<lparr>username = Some [], first_name = Some ''Ada'', last_name = None\<rparr> = ''Ada'' \<and>
   user_identifier \<lparr>username = Some ''bob'', first_name = None, last_name = None\<rparr> = ''bob'' \<and>
   user_identifier \<lparr>username = None, first_name = None, last_name = None\<rparr> = ''None'' \<and>
   user_identifier \<lparr>username = None, first_name = Some ''Ada'',
                    last_name = Some [CHR 0xA0]\<rparr> = ''Ada'' \<and>
   user_identifier \<lparr>username = None, first_name = Some (CHR 0x85 # ''Ada''),
                    last_name = None\<rparr> = ''Ada''"
  using user_identifier_derivation [of ada]
  by (simp add: ada_def user_identifier_def strip_def is_space_def)

section \<open>Blocked senders\<close>

text \<open>
  C5, as the code has it. When the connection to the store and the lookup of the block
  flag succeed and the derived identifier is blocked, the handler returns after the
  block check: it prints a note, and appends no message row, writes nothing to the users
  table and sends nothing.
\<close>

theorem blocked_sender_is_ignored:
  assumes "is_private ev" and "\<not> message_out ev"
    and "get_sender_r en = Ok s"
    and "connect_r en = Ok ()" and "select_r en = Ok ()"
    and "users w (user_identifier s) = Some True"
  shows "handle_new_message g en ev w =
           (None, w\<lparr>trace := trace w @
              [Select_blocked (user_identifier s),
               Print (''Ignoring message from blocked user: '' @ user_identifier s)]\<rparr>) \<and>
         messages (snd (handle_new_message g en ev w)) = messages w \<and>
         users (snd (handle_new_message g en ev w)) = users w \<and>
         outbox (snd (handle_new_message g en ev w)) = outbox w"
  using assms by (simp add: handle_new_message_def try_body_def emit_def Let_def)

theorem blocked_sender_is_ignored_witness:
  "users w_blocked (user_identifier bob) = Some True \<and>
   handle_new_message g0 en_ok ev0 w_blocked =
     (None, w_blocked\<lparr>trace :=
        [Select_blocked ''bob'', Print ''Ignoring message from blocked user: bob'']\<rparr>) \<and>
   messages (snd (handle_new_message g0 en_ok ev0 w_blocked)) = [] \<and>
   outbox (snd (handle_new_message g0 en_ok ev0 w_blocked)) = []"
  using blocked_sender_is_ignored [of ev0 en_ok bob w_blocked g0]
  by (simp add: ev0_def en_ok_def bob_def w_blocked_def user_identifier_def)

text \<open>
  The claim as stated fails when the store cannot be reached: for a blocked sender the
  block check raises, and with the word database in the exception text the apology is
  sent.
\<close>

theorem blocked_sender_store_failure_counterexample:
  "users w_blocked (user_identifier bob) = Some True \<and>
   outbox (snd (handle_new_message g0 en_connect_database ev0 w_blocked))
     = outbox w_blocked @ [apology] \<and>
   outbox (snd (handle_new_message g0 en_connect_database ev0 w_blocked)) \<noteq> outbox w_blocked"
  by (simp add: handle_new_message_def try_body_def except_block_def respond_def emit_def
      ev0_def en_ok_def en_connect_database_def bob_def w_blocked_def user_identifier_def
      lower_def lower_chr_def upper_letters_def lower_letters_def startswith_def Let_def)


section \<open>The except block\<close>

text \<open>
  C2 at a failing input. The download of the profile photo raises an exception whose text
  does not mention a database, so \<^verbatim>\<open>profile_pic_rel_path\<close> is still unbound when the
  \<^verbatim>\<open>except\<close> block reads it: UnboundLocalError leaves the handler, no diagnostic row
  is appended and no apology is sent.
\<close>

theorem except_block_reads_unbound_local:
  "fst (handle_new_message g0 en_download_timeout ev0 w0)
     = Some (UnboundLocalError ''profile_pic_rel_path'') \<and>
   messages (snd (handle_new_message g0 en_download_timeout ev0 w0)) = [] \<and>
   outbox (snd (handle_new_message g0 en_download_timeout ev0 w0)) = []"
  by (simp add: handle_new_message_def try_body_def except_block_def emit_def
      ev0_def en_ok_def en_download_timeout_def bob_def w0_def user_identifier_def
      lower_def lower_chr_def upper_letters_def lower_letters_def startswith_def Let_def)

lemma startswith_iff: "startswith p s \<longleftrightarrow> (\<exists>b. s = p @ b)"
proof
  assume "startswith p s"
  then have "s = p @ drop (length p) s"
    by (metis append_take_drop_id startswith_def)
  then show "\<exists>b. s = p @ b" ..
next
  assume "\<exists>b. s = p @ b"
  then show "startswith p s" by (auto simp: startswith_def)
qed

lemma contains_iff: "contains n h \<longleftrightarrow> (\<exists>a b. h = a @ n @ b)"
proof (induction h)
  case Nil
  then show ?case by auto
next
  case (Cons c cs)
  have "(\<exists>a b. c # cs = a @ n @ b) \<longleftrightarrow> (\<exists>b. c # cs = n @ b) \<or> (\<exists>a b. cs = a @ n @ b)"
  proof
    assume "\<exists>a b. c # cs = a @ n @ b"
    then obtain a b where ab: "c # cs = a @ n @ b" by blast
    show "(\<exists>b. c # cs = n @ b) \<or> (\<exists>a b. cs = a @ n @ b)"
    proof (cases a)
      case Nil
      with ab show ?thesis by auto
    next
      case (Cons a0 a')
      with ab have "cs = a' @ n @ b" by simp
      then show ?thesis by blast
    qed
  next
    assume "(\<exists>b. c # cs = n @ b) \<or> (\<exists>a b. cs = a @ n @ b)"
    then show "\<exists>a b. c # cs = a @ n @ b"
    proof
      assume "\<exists>b. c # cs = n @ b"
      then obtain b where "c # cs = [] @ n @ b" by auto
      then show ?thesis by blast
    next
      assume "\<exists>a b. cs = a @ n @ b"
      then obtain a b where "c # cs = (c # a) @ n @ b" by auto
      then show ?thesis by blast
    qed
  qed
  with Cons show ?case by (simp add: startswith_iff)
qed

lemma lower_append: "lower (a @ b) = lower a @ lower b"
  by (simp add: lower_def)

lemma contains_database_any_case:
  "lower x = ''database'' \<Longrightarrow> contains ''database'' (lower (a @ x @ b))"
  unfolding contains_iff lower_append by (intro exI) (rule arg_cong2 [where f = append], rule refl, simp)

text \<open>
  C10. The exception text is lowercased before the test, so the word database in any
  letter case suppresses the diagnostic row: whenever the body of the \<^verbatim>\<open>try\<close> raises
  an exception whose text contains a word that lowercases to database, the handler
  appends no row, prints the diagnostic and passes the apology to the transport.
\<close>

theorem database_test_ignores_case:
  assumes "is_private ev" and "\<not> message_out ev"
    and "get_sender_r en = Ok s"
    and "try_body g en ev (user_identifier s) w = (Some e, pic, w1)"
    and "e = a @ x @ b" and "lower x = ''database''"
  shows "messages (snd (handle_new_message g en ev w)) = messages w1 \<and>
         trace (snd (handle_new_message g en ev w))
           = trace w1 @ [Print (diagnostic e), Respond apology] \<and>
         (apology_r en = Ok () \<longrightarrow>
            fst (handle_new_message g en ev w) = None \<and>
            outbox (snd (handle_new_message g en ev w)) = outbox w1 @ [apology])"
proof -
  from assms(5,6) have db: "contains ''database'' (lower e)"
    by (simp only: contains_database_any_case)
  from assms(1-4) have h: "handle_new_message g en ev w = except_block en (user_identifier s) e pic w1"
    by (simp add: handle_new_message_def)
  show ?thesis
    unfolding h using db
    by (cases "apology_r en") (simp_all add: except_block_def respond_def emit_def diagnostic_def)
qed

theorem database_test_ignores_case_witness:
  "fst (try_body g0 en_model_database ev0 (user_identifier bob) w0)
     = Some ([] @ ''DATABASE'' @ '' quota exceeded'') \<and>
   lower ''DATABASE'' = ''database'' \<and>
   rows_with ''out'' (messages (snd (handle_new_message g0 en_model_database ev0 w0))) = [] \<and>
   fst (handle_new_message g0 en_model_database ev0 w0) = None \<and>
   outbox (snd (handle_new_message g0 en_model_database ev0 w0)) = [apology]"
proof -
  let ?tb = "try_body g0 en_model_database ev0 (user_identifier bob) w0"
  have e: "fst ?tb = Some ''DATABASE quota exceeded''"
    by (simp add: try_body_def typing_block_def Let_def ev0_def en_ok_def
        en_model_database_def bob_def w0_def user_identifier_def)
  then have tb: "?tb = (Some ''DATABASE quota exceeded'', fst (snd ?tb), snd (snd ?tb))"
    by (metis prod.collapse)
  have m: "rows_with ''out'' (messages (snd (snd ?tb))) = []"
    by (simp add: try_body_def typing_block_def log_to_db_def Let_def rows_with_def ev0_def
        en_ok_def en_model_database_def bob_def w0_def user_identifier_def)
  have o: "outbox (snd (snd ?tb)) = []"
    by (simp add: try_body_def typing_block_def Let_def ev0_def en_ok_def
        en_model_database_def bob_def w0_def user_identifier_def)
  have l: "lower ''DATABASE'' = ''database''"
    by (simp add: lower_def lower_chr_def upper_letters_def lower_letters_def)
  have p: "is_private ev0" "\<not> message_out ev0" "get_sender_r en_model_database = Ok bob"
    "apology_r en_model_database = Ok ()"
    by (simp_all add: ev0_def en_ok_def en_model_database_def)
  have x: "''DATABASE quota exceeded'' = [] @ ''DATABASE'' @ '' quota exceeded''"
    by simp
  from database_test_ignores_case [OF p(1) p(2) p(3) tb x l] p(4) m o e l
  show ?thesis by simp
qed

section \<open>The handler after the inbound log\<close>


lemma log_to_db_trace:
  "trace (log_to_db r t d u x p w) =
     trace w @ Log_to_db d u x p #
       (case r of Ok _ \<Rightarrow> [] | Raised e \<Rightarrow> [Print (''Database error in log_to_db: '' @ e)])"
  by (simp add: log_to_db_def split: result.splits)

lemma respond_sel:
  "fst (respond r x w) = (case r of Ok _ \<Rightarrow> None | Raised e \<Rightarrow> Some e)"
  "messages (snd (respond r x w)) = messages w"
  "trace (snd (respond r x w)) = trace w @ [Respond x]"
  "outbox (snd (respond r x w)) = outbox w @ (case r of Ok _ \<Rightarrow> [x] | Raised _ \<Rightarrow> [])"
  by (simp_all add: respond_def split: result.splits)

lemma handle_after_inbound_log:
  assumes "is_private ev" and "\<not> message_out ev"
    and "get_sender_r en = Ok s" and "uid = user_identifier s"
    and "connect_r en = Ok ()" and "select_r en = Ok ()"
    and "users w uid \<noteq> Some True"
    and "insert_r en = Ok ()" and "download_r en = Ok d" and "pic = rel_path uid d"
  shows "handle_new_message g en ev w =
           (case typing_block g en uid (event_text ev) pic (inbound_logged g en ev uid pic w) of
              (None, w7) \<Rightarrow> (None, w7)
            | (Some e, w7) \<Rightarrow> except_block en uid e (Some pic) w7)"
  using assms
  by (simp add: handle_new_message_def try_body_def inbound_logged_def rel_path_def Let_def
      split: prod.splits option.splits)

lemma typing_block_cases:
  "typing_r en = Raised e \<Longrightarrow> typing_block g en uid t p w = (Some e, emit Typing w)"
  "typing_r en = Ok () \<Longrightarrow> generate_r en = Raised e \<Longrightarrow>
     typing_block g en uid t p w =
       (Some e, emit (Generate_content (persona_for g uid @ [CHR 0x0A, CHR 0x0A] @ t))
                  (emit Typing w))"
  "typing_r en = Ok () \<Longrightarrow> generate_r en = Ok reply \<Longrightarrow> respond_r en = Raised e \<Longrightarrow>
     typing_block g en uid t p w =
       (Some e, emit (Respond reply)
                  (emit (Generate_content (persona_for g uid @ [CHR 0x0A, CHR 0x0A] @ t))
                     (emit Typing w)))"
  "typing_r en = Ok () \<Longrightarrow> generate_r en = Ok reply \<Longrightarrow> respond_r en = Ok () \<Longrightarrow>
     typing_block g en uid t p w =
       (None, log_to_db (log_out_r en) (time_out en) ''out'' uid reply p
                (emit (Print (''Sent response to '' @ uid @ '': '' @ reply))
                   ((emit (Respond reply)
                      (emit (Generate_content (persona_for g uid @ [CHR 0x0A, CHR 0x0A] @ t))
                         (emit Typing w)))
                    \<lparr>outbox := outbox w @ [reply]\<rparr>)))"
  by (simp_all add: typing_block_def respond_def persona_for_def emit_def Let_def)

lemma except_block_bound:
  "except_block en uid e (Some p) w =
     (let w1 = emit (Print (diagnostic e)) w;
          w2 = (if contains ''database'' (lower e) then w1
                else log_to_db (log_out_r en) (time_out en) ''out'' uid (diagnostic e) p w1)
      in (case apology_r en of Ok _ \<Rightarrow> None | Raised e' \<Rightarrow> Some (Exception e'),
          snd (respond (apology_r en) apology w2)))"
  by (simp add: except_block_def respond_def diagnostic_def Let_def split: result.splits)





section \<open>The order of the effects\<close>







text \<open>The concrete runs: bob is not blocked and the pipeline reaches the inbound log.\<close>

lemma handle_bob:
  assumes "get_sender_r en = Ok bob" and "connect_r en = Ok ()" and "select_r en = Ok ()"
    and "insert_r en = Ok ()"
    and "download_r en = Ok (Some ''/app/web_panel/static/profile_pics/bob.jpg'')"
  shows "handle_new_message g0 en ev0 w0 =
           (case typing_block g0 en ''bob'' ''hi'' (Some ''profile_pics/bob.jpg'')
                   (inbound_logged g0 en ev0 ''bob'' (Some ''profile_pics/bob.jpg'') w0) of
              (None, w7) \<Rightarrow> (None, w7)
            | (Some e, w7) \<Rightarrow> except_block en ''bob'' e (Some (Some ''profile_pics/bob.jpg'')) w7)"
proof -
  have u: "''bob'' = user_identifier bob"
    by (simp add: user_identifier_def bob_def)
  have b: "users w0 ''bob'' \<noteq> Some True"
    by (simp add: w0_def)
  have p: "Some ''profile_pics/bob.jpg''
      = rel_path ''bob'' (Some ''/app/web_panel/static/profile_pics/bob.jpg'')"
    by (simp add: rel_path_def path_join_def startswith_def replace_backslash_def)
  have e: "is_private ev0" "\<not> message_out ev0" "event_text ev0 = ''hi''"
    by (simp_all add: ev0_def)
  from handle_after_inbound_log [OF e(1) e(2) assms(1) u assms(2) assms(3) b assms(4)
      assms(5) p, of g0] e(3)
  show ?thesis by simp
qed

lemma trace_inbound_logged_bob:
  "log_in_r en = Ok () \<Longrightarrow>
   trace (inbound_logged g0 en ev0 ''bob'' (Some ''profile_pics/bob.jpg'') w0) =
     [Select_blocked ''bob'', Insert_user ''bob'',
      Download_profile_photo ''/app/web_panel/static/profile_pics/bob.jpg'',
      Print ''Received message from bob: hi'',
      Log_to_db ''in'' ''bob'' ''hi'' (Some ''profile_pics/bob.jpg'')]"
  by (simp add: inbound_logged_def log_to_db_trace w0_def ev0_def g0_def path_join_def
      startswith_def)




text \<open>On a run where the model call fails the effects do come in the order of section 5.\<close>

lemma log_call_log_send_on_model_failure:
  "log_call_log_send (trace (snd (handle_new_message g0 en_model_overloaded ev0 w0)))"
proof -
  have e: "get_sender_r en_model_overloaded = Ok bob" "connect_r en_model_overloaded = Ok ()"
    "select_r en_model_overloaded = Ok ()" "insert_r en_model_overloaded = Ok ()"
    "download_r en_model_overloaded = Ok (Some ''/app/web_panel/static/profile_pics/bob.jpg'')"
    by (simp_all add: en_ok_def en_model_overloaded_def)
  have r: "typing_r en_model_overloaded = Ok ()"
    "generate_r en_model_overloaded = Raised ''model overloaded''"
    "log_in_r en_model_overloaded = Ok ()" "log_out_r en_model_overloaded = Ok ()"
    by (simp_all add: en_ok_def en_model_overloaded_def)
  have d: "\<not> contains ''database'' (lower ''model overloaded'')"
    by (simp add: lower_def lower_chr_def upper_letters_def lower_letters_def startswith_def)
  have "trace (snd (handle_new_message g0 en_model_overloaded ev0 w0)) =
     [Select_blocked ''bob'', Insert_user ''bob'',
      Download_profile_photo ''/app/web_panel/static/profile_pics/bob.jpg'',
      Print ''Received message from bob: hi'',
      Log_to_db ''in'' ''bob'' ''hi'' (Some ''profile_pics/bob.jpg''),
      Typing,
      Generate_content (persona_for g0 ''bob'' @ [CHR 0x0A, CHR 0x0A] @ ''hi''),
      Print (diagnostic ''model overloaded''),
      Log_to_db ''out'' ''bob'' (diagnostic ''model overloaded'') (Some ''profile_pics/bob.jpg''),
      Respond apology]"
    by (simp add: handle_bob [OF e] typing_block_cases(2) [OF r(1) r(2)] except_block_bound d
        respond_sel log_to_db_trace trace_inbound_logged_bob [OF r(3)] r(4) Let_def)
  then show ?thesis
    by (simp add: log_call_log_send_def occurs_before_def)
qed

section \<open>The prompt\<close>


















section \<open>The prompt configuration parser\<close>

lemma split_chr_not_Nil: "split_chr sep s \<noteq> []"
  by (induction s) (auto split: list.splits)

lemma split_chr_prefix:
  "sep \<notin> set pre \<Longrightarrow>
   split_chr sep (pre @ c) = (pre @ hd (split_chr sep c)) # tl (split_chr sep c)"
proof (induction pre)
  case Nil
  then show ?case using split_chr_not_Nil [of sep c] by simp
next
  case (Cons x pre)
  then show ?case by auto
qed

lemma sections_prefix: "CHR ''['' \<notin> set pre \<Longrightarrow> sections (pre @ c) = sections c"
  using split_chr_not_Nil [of "CHR ''[''" c]
  by (cases "split_chr CHR ''['' c") (simp_all add: sections_def split_chr_prefix)

lemma split1_closed:
  "sep \<in> set s \<Longrightarrow>
   split1 sep s = [takeWhile (\<lambda>c. c \<noteq> sep) s, drop 1 (dropWhile (\<lambda>c. c \<noteq> sep) s)]"
  by (simp add: split1_def)

lemma split1_persona:
  assumes "startswith ''persona:'' h"
  shows "split1 CHR '':'' h = [''persona'', drop 8 h]"
proof -
  from assms obtain b where h: "h = ''persona:'' @ b"
    unfolding startswith_iff by blast
  show ?thesis unfolding h by (simp add: split1_def)
qed

lemma parse_section_open:
  "CHR '']'' \<notin> set s \<Longrightarrow> parse_section s acc = Inl ValueError"
  by (cases acc rule: prod_cases3) (simp add: split1_def)

lemma parse_section_closed:
  assumes "CHR '']'' \<in> set s"
  shows "parse_section s (sp, ps, dp) =
           Inr (if header_of s = ''system_prompt'' then strip (body_of s) else sp,
                if startswith ''persona:'' (header_of s)
                then ps(drop 8 (header_of s) \<mapsto> strip (body_of s)) else ps,
                if header_of s = ''default_persona'' then strip (body_of s) else dp)"
proof -
  have a: "\<not> startswith ''persona:'' ''system_prompt''"
    "\<not> startswith ''persona:'' ''default_persona''"
    by (simp_all add: startswith_def)
  show ?thesis
  proof (cases "startswith ''persona:'' (header_of s)")
    case True
    then have n: "header_of s \<noteq> ''system_prompt''" "header_of s \<noteq> ''default_persona''"
      using a by auto
    from True have "split1 CHR '':'' (header_of s) = [''persona'', drop 8 (header_of s)]"
      by (rule split1_persona)
    then show ?thesis
      using True n assms unfolding header_of_def body_of_def
      by (simp add: split1_closed)
  next
    case False
    then show ?thesis
      using assms unfolding header_of_def body_of_def
      by (simp add: split1_closed)
  qed
qed

lemma parse_sections_closed:
  "(\<forall>s \<in> set secs. CHR '']'' \<in> set s) \<Longrightarrow> \<exists>r. parse_sections secs acc = Inr r"
proof (induction secs arbitrary: acc)
  case Nil
  then show ?case by (simp del: split_paired_Ex)
next
  case (Cons s secs)
  obtain sp ps dp where acc: "acc = (sp, ps, dp)" by (metis prod_cases3)
  from Cons.prems have "CHR '']'' \<in> set s" by simp
  from parse_section_closed [OF this, of sp ps dp] obtain acc' where
    "parse_section s acc = Inr acc'" unfolding acc by blast
  moreover from Cons.prems have "\<forall>s \<in> set secs. CHR '']'' \<in> set s" by simp
  from Cons.IH [OF this, of acc'] obtain r where "parse_sections secs acc' = Inr r" by blast
  ultimately show ?case by (simp del: split_paired_Ex)
qed

lemma parse_sections_open:
  "(\<exists>s \<in> set secs. CHR '']'' \<notin> set s) \<Longrightarrow> parse_sections secs acc = Inl ValueError"
proof (induction secs arbitrary: acc)
  case Nil
  then show ?case by simp
next
  case (Cons s secs)
  show ?case
  proof (cases "CHR '']'' \<in> set s")
    case False
    then show ?thesis by (simp add: parse_section_open)
  next
    case True
    obtain sp ps dp where acc: "acc = (sp, ps, dp)" by (metis prod_cases3)
    from parse_section_closed [OF True, of sp ps dp] obtain acc' where
      a: "parse_section s acc = Inr acc'" unfolding acc by blast
    from Cons.prems True have "\<exists>s \<in> set secs. CHR '']'' \<notin> set s" by auto
    from Cons.IH [OF this, of acc'] a show ?thesis by simp
  qed
qed

text \<open>
  C4, as the code has it. Content before the first opening bracket contributes nothing to
  the result. The parser returns normally when every section, that is the text after an
  opening bracket, has a closing bracket; a header with no closing bracket is not
  ignored: unpacking the split raises ValueError, whatever the rest of the file holds.
\<close>

theorem load_prompt_config_malformed:
  "(CHR ''['' \<notin> set pre \<longrightarrow>
      load_prompt_config_from_txt (Some (pre @ c)) = load_prompt_config_from_txt (Some c)) \<and>
   ((\<forall>s \<in> set (sections c). CHR '']'' \<in> set s) \<longrightarrow>
      (\<exists>r. load_prompt_config_from_txt (Some c) = Inr r)) \<and>
   ((\<exists>s \<in> set (sections c). CHR '']'' \<notin> set s) \<longrightarrow>
      load_prompt_config_from_txt (Some c) = Inl ValueError)"
proof (intro conjI impI)
  assume "CHR ''['' \<notin> set pre"
  then show "load_prompt_config_from_txt (Some (pre @ c)) = load_prompt_config_from_txt (Some c)"
    by (simp add: load_prompt_config_from_txt_def sections_prefix)
next
  assume "\<forall>s \<in> set (sections c). CHR '']'' \<in> set s"
  then show "\<exists>r. load_prompt_config_from_txt (Some c) = Inr r"
    unfolding load_prompt_config_from_txt_def option.case by (rule parse_sections_closed)
next
  assume "\<exists>s \<in> set (sections c). CHR '']'' \<notin> set s"
  then show "load_prompt_config_from_txt (Some c) = Inl ValueError"
    unfolding load_prompt_config_from_txt_def option.case by (rule parse_sections_open)
qed

theorem load_prompt_config_malformed_witness:
  "CHR ''['' \<notin> set ''junk '' \<and>
   load_prompt_config_from_txt (Some (''junk '' @ ''[system_prompt] A''))
     = load_prompt_config_from_txt (Some ''[system_prompt] A'') \<and>
   (\<exists>r. load_prompt_config_from_txt (Some ''[system_prompt] A'') = Inr r) \<and>
   load_prompt_config_from_txt (Some ''[system_prompt] A [persona:bob'') = Inl ValueError"
proof -
  have a: "CHR ''['' \<notin> set ''junk ''" by simp
  have b: "\<forall>s \<in> set (sections ''[system_prompt] A''). CHR '']'' \<in> set s"
    by (simp add: sections_def)
  have c: "\<exists>s \<in> set (sections ''[system_prompt] A [persona:bob''). CHR '']'' \<notin> set s"
    by (simp add: sections_def)
  from load_prompt_config_malformed [of "''junk ''" "''[system_prompt] A''"]
    load_prompt_config_malformed [of "[]" "''[system_prompt] A [persona:bob''"] a b c
  show ?thesis by blast
qed

text \<open>
  The claim as stated fails for a header with no closing bracket: the parser does not
  return.
\<close>

theorem unclosed_header_counterexample:
  "load_prompt_config_from_txt (Some ''[system_prompt] A [persona:bob'') = Inl ValueError"
  by (simp add: load_prompt_config_from_txt_def sections_def split1_def strip_def is_space_def)

lemma last_body_Nil: "last_body h [] = None"
  by (simp add: last_body_def)

lemma last_body_Cons:
  "last_body h (s # secs) =
     (case last_body h secs of
        Some b \<Rightarrow> Some b
      | None \<Rightarrow> if header_of s = h then Some (strip (body_of s)) else None)"
  by (cases "filter (\<lambda>s. header_of s = h) secs") (simp_all add: last_body_def)

lemma header_persona:
  "header_of s = ''persona:'' @ k \<longleftrightarrow> startswith ''persona:'' (header_of s) \<and> drop 8 (header_of s) = k"
proof
  assume "header_of s = ''persona:'' @ k"
  then show "startswith ''persona:'' (header_of s) \<and> drop 8 (header_of s) = k"
    by (simp add: startswith_def)
next
  assume a: "startswith ''persona:'' (header_of s) \<and> drop 8 (header_of s) = k"
  then obtain b where b: "header_of s = ''persona:'' @ b"
    unfolding startswith_iff by blast
  with a show "header_of s = ''persona:'' @ k" by simp
qed

lemma last_wins_step:
  "x = (case lb of None \<Rightarrow> (if hs = h then Some v else d) | Some b \<Rightarrow> Some b) \<Longrightarrow>
   x = (case (case lb of Some b \<Rightarrow> Some b | None \<Rightarrow> if hs = h then Some v else None) of
          None \<Rightarrow> d | Some b \<Rightarrow> Some b)"
  by (simp split: option.splits)

lemma parse_sections_last:
  "parse_sections secs (sp0, ps0, dp0) = Inr (sp, ps, dp) \<Longrightarrow>
   sp = (case last_body ''system_prompt'' secs of None \<Rightarrow> sp0 | Some b \<Rightarrow> b) \<and>
   dp = (case last_body ''default_persona'' secs of None \<Rightarrow> dp0 | Some b \<Rightarrow> b) \<and>
   ps k = (case last_body (''persona:'' @ k) secs of None \<Rightarrow> ps0 k | Some b \<Rightarrow> Some b)"
proof (induction secs arbitrary: sp0 ps0 dp0)
  case Nil
  then show ?case by (simp add: last_body_Nil)
next
  case (Cons s secs)
  have closed: "CHR '']'' \<in> set s"
  proof (rule ccontr)
    assume "CHR '']'' \<notin> set s"
    then have "parse_sections (s # secs) (sp0, ps0, dp0) = Inl ValueError"
      by (simp del: parse_section.simps add: parse_section_open)
    with Cons.prems show False by simp
  qed
  let ?sp = "if header_of s = ''system_prompt'' then strip (body_of s) else sp0"
  let ?ps = "if startswith ''persona:'' (header_of s)
             then ps0(drop 8 (header_of s) \<mapsto> strip (body_of s)) else ps0"
  let ?dp = "if header_of s = ''default_persona'' then strip (body_of s) else dp0"
  from parse_section_closed [OF closed, of sp0 ps0 dp0] Cons.prems
  have "parse_sections secs (?sp, ?ps, ?dp) = Inr (sp, ps, dp)"
    by (simp del: parse_section.simps)
  from Cons.IH [OF this]
  have ih: "sp = (case last_body ''system_prompt'' secs of None \<Rightarrow> ?sp | Some b \<Rightarrow> b)"
    "dp = (case last_body ''default_persona'' secs of None \<Rightarrow> ?dp | Some b \<Rightarrow> b)"
    "ps k = (case last_body (''persona:'' @ k) secs of None \<Rightarrow> ?ps k | Some b \<Rightarrow> Some b)"
    by simp_all
  have pk: "?ps k = (if header_of s = ''persona:'' @ k then Some (strip (body_of s)) else ps0 k)"
    unfolding header_persona by auto
  have c1: "sp = (case last_body ''system_prompt'' (s # secs) of None \<Rightarrow> sp0 | Some b \<Rightarrow> b)"
    using ih(1) by (simp add: last_body_Cons split: option.splits)
  have c2: "dp = (case last_body ''default_persona'' (s # secs) of None \<Rightarrow> dp0 | Some b \<Rightarrow> b)"
    using ih(2) by (simp add: last_body_Cons split: option.splits)
  have c3: "ps k = (case last_body (''persona:'' @ k) (s # secs) of
                      None \<Rightarrow> ps0 k | Some b \<Rightarrow> Some b)"
  proof -
    from ih(3) have "ps k = (case last_body (''persona:'' @ k) secs of
        None \<Rightarrow> (if header_of s = ''persona:'' @ k then Some (strip (body_of s)) else ps0 k)
      | Some b \<Rightarrow> Some b)"
      by (simp only: pk)
    then show ?thesis
      unfolding last_body_Cons by (rule last_wins_step)
  qed
  from c1 c2 c3 show ?case by (intro conjI)
qed

text \<open>
  C9. When the parser returns, each value is the trimmed body of the last section with the
  matching header: the system prompt for \<open>[system_prompt]\<close>, the default persona for
  \<open>[default_persona]\<close>, and the persona of \<open>k\<close> for \<open>[persona:k]\<close>; a key with no
  section keeps the empty value.
\<close>

theorem last_section_wins:
  assumes "load_prompt_config_from_txt (Some content) = Inr (sp, ps, dp)"
  shows "sp = (case last_body ''system_prompt'' (sections content) of
                 None \<Rightarrow> [] | Some b \<Rightarrow> b) \<and>
         dp = (case last_body ''default_persona'' (sections content) of
                 None \<Rightarrow> [] | Some b \<Rightarrow> b) \<and>
         ps k = last_body (''persona:'' @ k) (sections content)"
proof -
  from assms have "parse_sections (sections content) ([], Map.empty, []) = Inr (sp, ps, dp)"
    by (simp add: load_prompt_config_from_txt_def)
  from parse_sections_last [OF this, of k] show ?thesis
    by (simp split: option.splits)
qed

theorem last_section_wins_witness:
  "load_prompt_config_from_txt (Some duplicated_sections)
     = Inr (''Z'', [''bob'' \<mapsto> ''C''], ''E'') \<and>
   last_body ''system_prompt'' (sections duplicated_sections) = Some ''Z'' \<and>
   last_body ''default_persona'' (sections duplicated_sections) = Some ''E'' \<and>
   last_body (''persona:'' @ ''bob'') (sections duplicated_sections) = Some ''C''"
proof -
  have s: "sections duplicated_sections =
      [''system_prompt] A '', ''persona:bob]B '', ''system_prompt]Z '', ''persona:bob] C '',
       ''default_persona]D'', ''default_persona] E'']"
    by (simp add: sections_def duplicated_sections_def)
  have l: "load_prompt_config_from_txt (Some duplicated_sections)
      = Inr (''Z'', [''bob'' \<mapsto> ''C''], ''E'')"
    by (simp add: load_prompt_config_from_txt_def s split1_def strip_def is_space_def
        startswith_def)
  have p: "[''bob'' \<mapsto> ''C''] ''bob'' = Some ''C''" by simp
  from last_section_wins [OF l, of "''bob''"] p
  have "''Z'' = (case last_body ''system_prompt'' (sections duplicated_sections) of
                  None \<Rightarrow> [] | Some b \<Rightarrow> b)"
    "''E'' = (case last_body ''default_persona'' (sections duplicated_sections) of
                  None \<Rightarrow> [] | Some b \<Rightarrow> b)"
    "last_body (''persona:'' @ ''bob'') (sections duplicated_sections) = Some ''C''"
    by simp_all
  then have "last_body ''system_prompt'' (sections duplicated_sections) = Some ''Z''"
    "last_body ''default_persona'' (sections duplicated_sections) = Some ''E''"
    "last_body (''persona:'' @ ''bob'') (sections duplicated_sections) = Some ''C''"
    by (simp_all split: option.splits)
  with l show ?thesis by simp
qed

end
